theory Spec2Isabelle
  imports Main "HOL-Library.Sublist" "HOL-Library.AList"
begin

section \<open>Data model of \<open>internal/models/gist.go\<close>\<close>

text \<open>
  Go's \<open>error\<close> interface is either nil or a value. The only dynamic type the source
  inspects is \<open>*exec.ExitError\<close>, through \<open>err.(*exec.ExitError)\<close> and
  \<open>ExitCode()\<close>; every other error value is opaque to it. A returned \<open>error\<close> is
  an \<open>error option\<close>, with \<open>None\<close> for nil.
\<close>

datatype error = ExitError int | OtherError string

text \<open>
  \<open>type User\<close> is declared in another file of the package; the methods below read
  its \<open>ID\<close> and \<open>Username\<close> only.
\<close>

record User =
  ID :: nat
  Username :: string

text \<open>
  \<open>type Gist\<close>. The two database associations \<open>Likes\<close> and \<open>Forked\<close> are
  left out: no method below reads them.
\<close>

record Gist =
  ID :: nat
  Uuid :: string
  Title :: string
  Preview :: string
  PreviewFilename :: string
  Description :: string
  Private :: bool
  UserID :: nat
  User :: User
  NbFiles :: int
  NbLikes :: int
  NbForks :: int
  CreatedAt :: int
  UpdatedAt :: int
  ForkedID :: nat

record File =
  Filename :: string
  OldFilename :: string
  Content :: string
  Truncated :: bool

record Commit =
  Hash :: string
  Author :: string
  Timestamp :: string
  Changed :: string
  Files :: "File list"

section \<open>The interface of package \<open>opengist/internal/git\<close>\<close>

text \<open>
  The package is imported by \<open>gist.go\<close> but its code is not part of the sources at
  hand, so its functions are parameters of the model: a record of operations over a
  state \<open>'s\<close> (the disk: repositories and temporary clones). An operation that the
  source uses for its effect returns its \<open>error\<close> with the new state; one that
  the source uses for its result reads the state. \<open>'l\<close> is the type of the first
  result of \<open>GetLog\<close>, which the source never looks at.
\<close>

record ('s, 'l) git =
  InitRepository :: "string \<Rightarrow> string \<Rightarrow> 's \<Rightarrow> error option \<times> 's"
  GetFilesOfRepository :: "string \<Rightarrow> string \<Rightarrow> string \<Rightarrow> 's \<Rightarrow> string list \<times> error option"
  GetFileContent ::
    "string \<Rightarrow> string \<Rightarrow> string \<Rightarrow> string \<Rightarrow> bool \<Rightarrow> 's \<Rightarrow> string \<times> bool \<times> error option"
  GetLog :: "string \<Rightarrow> string \<Rightarrow> string \<Rightarrow> 's \<Rightarrow> 'l \<times> error option"
  GetNumberOfCommitsOfRepository :: "string \<Rightarrow> string \<Rightarrow> 's \<Rightarrow> string \<times> error option"
  CloneTmp :: "string \<Rightarrow> string \<Rightarrow> string \<Rightarrow> 's \<Rightarrow> error option \<times> 's"
  SetFileContent :: "string \<Rightarrow> string \<Rightarrow> string \<Rightarrow> 's \<Rightarrow> error option \<times> 's"
  AddAll :: "string \<Rightarrow> 's \<Rightarrow> error option \<times> 's"
  Commit :: "string \<Rightarrow> 's \<Rightarrow> error option \<times> 's"
  Push :: "string \<Rightarrow> 's \<Rightarrow> error option \<times> 's"

section \<open>The methods of \<open>Gist\<close> that go through git\<close>

text \<open>
  The test \<open>exiterr, ok := err.(*exec.ExitError); ok && exiterr.ExitCode() == 128\<close>,
  written twice in the source.
\<close>

fun is_exit128 :: "error option \<Rightarrow> bool" where
  "is_exit128 (Some (ExitError c)) = (c = 128)"
| "is_exit128 _ = False"

definition Gist_InitRepository :: "('s, 'l) git \<Rightarrow> Gist \<Rightarrow> 's \<Rightarrow> error option \<times> 's" where
  "Gist_InitRepository g gist s = InitRepository g (Username (User gist)) (Uuid gist) s"

text \<open>
  \<open>func (gist *Gist) File\<close>. A \<open>*File\<close> is a \<open>File option\<close>, nil being
  \<open>None\<close>. The composite literal sets three fields; \<open>OldFilename\<close> keeps Go's zero
  value, the empty string.
\<close>

definition Gist_File ::
  "('s, 'l) git \<Rightarrow> Gist \<Rightarrow> string \<Rightarrow> string \<Rightarrow> bool \<Rightarrow> 's \<Rightarrow> File option \<times> error option" where
  "Gist_File g gist revision filename trunc s =
     (case GetFileContent g (Username (User gist)) (Uuid gist) revision filename trunc s of
        (content, truncated, err) \<Rightarrow>
          if is_exit128 err then (None, None)
          else (Some \<lparr>Filename = filename, OldFilename = [], Content = content,
                       Truncated = truncated\<rparr>, err))"

text \<open>
  The \<open>for _, fileStr := range filesStr\<close> loop of \<open>Files\<close>, with the slice
  \<open>files\<close> built so far as accumulator. A nil slice and an empty one are both
  \<open>[]\<close>: the source returns either nil or a slice it has appended to. After the loop
  the source returns the outer \<open>err\<close>, which is nil on this path.
\<close>

fun Files_loop ::
  "('s, 'l) git \<Rightarrow> Gist \<Rightarrow> string \<Rightarrow> 's \<Rightarrow> string list \<Rightarrow> File option list
     \<Rightarrow> File option list \<times> error option" where
  "Files_loop g gist revision s [] files = (files, None)"
| "Files_loop g gist revision s (fileStr # rest) files =
     (case Gist_File g gist revision fileStr True s of
        (file, Some e) \<Rightarrow> ([], Some e)
      | (file, None) \<Rightarrow> Files_loop g gist revision s rest (files @ [file]))"

definition Gist_Files ::
  "('s, 'l) git \<Rightarrow> Gist \<Rightarrow> string \<Rightarrow> 's \<Rightarrow> File option list \<times> error option" where
  "Gist_Files g gist revision s =
     (case GetFilesOfRepository g (Username (User gist)) (Uuid gist) revision s of
        (filesStr, Some e) \<Rightarrow> if is_exit128 (Some e) then ([], None) else ([], Some e)
      | (filesStr, None) \<Rightarrow> Files_loop g gist revision s filesStr [])"

definition Gist_Log :: "('s, 'l) git \<Rightarrow> Gist \<Rightarrow> string \<Rightarrow> 's \<Rightarrow> error option" where
  "Gist_Log g gist skip s =
     (case GetLog g (Username (User gist)) (Uuid gist) skip s of (_, err) \<Rightarrow> err)"

definition Gist_NbCommits :: "('s, 'l) git \<Rightarrow> Gist \<Rightarrow> 's \<Rightarrow> string \<times> error option" where
  "Gist_NbCommits g gist s =
     GetNumberOfCommitsOfRepository g (Username (User gist)) (Uuid gist) s"

text \<open>
  The \<open>for _, file := range *files\<close> loop of \<open>AddAndCommitFiles\<close>: the first
  failing write ends the loop and the function.
\<close>

fun write_files :: "('s, 'l) git \<Rightarrow> Gist \<Rightarrow> File list \<Rightarrow> 's \<Rightarrow> error option \<times> 's" where
  "write_files g gist [] s = (None, s)"
| "write_files g gist (file # rest) s =
     (case SetFileContent g (Uuid gist) (Filename file) (Content file) s of
        (Some e, s') \<Rightarrow> (Some e, s')
      | (None, s') \<Rightarrow> write_files g gist rest s')"

definition Gist_AddAndCommitFiles ::
  "('s, 'l) git \<Rightarrow> Gist \<Rightarrow> File list \<Rightarrow> 's \<Rightarrow> error option \<times> 's" where
  "Gist_AddAndCommitFiles g gist files s =
     (case CloneTmp g (Username (User gist)) (Uuid gist) (Uuid gist) s of
        (Some e, s1) \<Rightarrow> (Some e, s1)
      | (None, s1) \<Rightarrow>
          (case write_files g gist files s1 of
             (Some e, s2) \<Rightarrow> (Some e, s2)
           | (None, s2) \<Rightarrow>
               (case AddAll g (Uuid gist) s2 of
                  (Some e, s3) \<Rightarrow> (Some e, s3)
                | (None, s3) \<Rightarrow>
                    (case Commit g (Uuid gist) s3 of
                       (Some e, s4) \<Rightarrow> (Some e, s4)
                     | (None, s4) \<Rightarrow> Push g (Uuid gist) s4))))"

section \<open>Recording the calls of an edit transaction\<close>

text \<open>
  The calls \<open>AddAndCommitFiles\<close> can make into the git package, with their
  arguments.
\<close>

datatype call =
    CloneTmp_call string string string
  | SetFileContent_call string string string
  | AddAll_call string
  | Commit_call string
  | Push_call string

text \<open>
  Any implementation of the package can be run with a journal: the state is paired with
  the list of calls made so far, each with the error it returned. The operations
  themselves act on the state as before.
\<close>

definition logged :: "('s, 'l) git \<Rightarrow> ((call \<times> error option) list \<times> 's, 'l) git" where
  "logged g =
     \<lparr>InitRepository = (\<lambda>u i (l, s). case InitRepository g u i s of (e, s') \<Rightarrow> (e, (l, s'))),
      GetFilesOfRepository = (\<lambda>u i r (l, s). GetFilesOfRepository g u i r s),
      GetFileContent = (\<lambda>u i r f t (l, s). GetFileContent g u i r f t s),
      GetLog = (\<lambda>u i k (l, s). GetLog g u i k s),
      GetNumberOfCommitsOfRepository = (\<lambda>u i (l, s). GetNumberOfCommitsOfRepository g u i s),
      CloneTmp = (\<lambda>u i t (l, s). case CloneTmp g u i t s of
                    (e, s') \<Rightarrow> (e, (l @ [(CloneTmp_call u i t, e)], s'))),
      SetFileContent = (\<lambda>t f c (l, s). case SetFileContent g t f c s of
                    (e, s') \<Rightarrow> (e, (l @ [(SetFileContent_call t f c, e)], s'))),
      AddAll = (\<lambda>t (l, s). case AddAll g t s of
                    (e, s') \<Rightarrow> (e, (l @ [(AddAll_call t, e)], s'))),
      Commit = (\<lambda>t (l, s). case Commit g t s of
                    (e, s') \<Rightarrow> (e, (l @ [(Commit_call t, e)], s'))),
      Push = (\<lambda>t (l, s). case Push g t s of
                    (e, s') \<Rightarrow> (e, (l @ [(Push_call t, e)], s')))\<rparr>"

text \<open>The calls of a transaction in which every step succeeds.\<close>

definition expected_calls :: "Gist \<Rightarrow> File list \<Rightarrow> call list" where
  "expected_calls gist files =
     CloneTmp_call (Username (User gist)) (Uuid gist) (Uuid gist)
     # map (\<lambda>file. SetFileContent_call (Uuid gist) (Filename file) (Content file)) files
     @ [AddAll_call (Uuid gist), Commit_call (Uuid gist), Push_call (Uuid gist)]"

section \<open>A git package as the specification describes it\<close>

text \<open>
  A tree maps filenames to contents; a repository is its commits, newest first, each
  with its hash. A temporary clone remembers the repository it came from and the
  history it was cloned at, and has a working tree, an index and its own history.
\<close>

type_synonym tree = "(string \<times> string) list"

type_synonym history = "(string \<times> tree) list"

record clone =
  origin :: "string \<times> string"
  base :: history
  branch :: history
  worktree :: tree
  staged :: tree

text \<open>
  The disk: the canonical repositories by (owner, gist id), the temporary clones by
  session id, and where the specification's \<open>IOFailure\<close> ("disk, permission,
  corruption") strikes: the calls of an edit transaction that will fail, and the
  repositories that cannot be read.
\<close>

record world =
  repos :: "string \<times> string \<Rightarrow> history option"
  clones :: "string \<Rightarrow> clone option"
  failing :: "call list"
  damaged :: "(string \<times> string) list"

definition NotFound :: error where "NotFound = OtherError ''NotFound''"
definition AlreadyExists :: error where "AlreadyExists = OtherError ''AlreadyExists''"
definition Conflict :: error where "Conflict = OtherError ''Conflict''"
definition IOFailure :: error where "IOFailure = OtherError ''IOFailure''"

text \<open>
  Modelled from the spec: the status of a git subprocess given a bad revision or path,
  "the exit code 128 means not-found pattern" of the design notes.
\<close>

definition bad_revision :: error where
  "bad_revision = ExitError 128"

text \<open>
  Modelled from the spec: how git resolves a revision, "any git-recognized identifier
  (branch name, full or abbreviated commit hash, symbolic HEAD)", which "may be
  invalid". Here \<open>HEAD\<close> is the newest commit and any other identifier is looked up
  as a full hash.
\<close>

definition resolve :: "string \<Rightarrow> history \<Rightarrow> tree option" where
  "resolve revision h =
     (if revision = ''HEAD'' then (case h of [] \<Rightarrow> None | c # _ \<Rightarrow> Some (snd c))
      else map_of h revision)"

text \<open>Decimal text, for the commit count and the \<open>skip\<close> argument of the log.\<close>

function decimal :: "nat \<Rightarrow> string" where
  "decimal n =
     (if n < 10 then [char_of (48 + n)] else decimal (n div 10) @ [char_of (48 + n mod 10)])"
  by pat_completeness auto
termination
  by (relation "measure id") auto

fun parse_decimal_acc :: "nat \<Rightarrow> string \<Rightarrow> nat option" where
  "parse_decimal_acc acc [] = Some acc"
| "parse_decimal_acc acc (c # cs) =
     (if 48 \<le> (of_char c :: nat) \<and> (of_char c :: nat) \<le> 57
      then parse_decimal_acc (10 * acc + (of_char c - 48)) cs else None)"

definition parse_decimal :: "string \<Rightarrow> nat option" where
  "parse_decimal s = (if s = [] then None else parse_decimal_acc 0 s)"

text \<open>
  Modelled from the spec: \<open>git.InitRepository\<close>, "creates a new empty bare repository
  at the resolved path. Fails with AlreadyExists if the path is occupied, IOFailure on
  disk/permission errors".
\<close>

definition spec_InitRepository :: "string \<Rightarrow> string \<Rightarrow> world \<Rightarrow> error option \<times> world" where
  "spec_InitRepository user gist w =
     (if (user, gist) \<in> set (damaged w) then (Some IOFailure, w)
      else case repos w (user, gist) of
        Some h \<Rightarrow> (Some AlreadyExists, w)
      | None \<Rightarrow> (None, w\<lparr>repos := (repos w)((user, gist) \<mapsto> [])\<rparr>))"

text \<open>
  Modelled from the spec: \<open>git.GetFilesOfRepository\<close>, "lists the tree at revision";
  when "revision or the repository state makes the tree unresolvable" the subprocess
  ends with the bad-revision status, which is "distinguished from lower-level I/O
  failure".
\<close>

definition spec_GetFilesOfRepository ::
  "string \<Rightarrow> string \<Rightarrow> string \<Rightarrow> world \<Rightarrow> string list \<times> error option" where
  "spec_GetFilesOfRepository user gist revision w =
     (if (user, gist) \<in> set (damaged w) then ([], Some IOFailure)
      else case repos w (user, gist) of
        None \<Rightarrow> ([], Some bad_revision)
      | Some h \<Rightarrow>
          (case resolve revision h of
             None \<Rightarrow> ([], Some bad_revision)
           | Some t \<Rightarrow> (map fst t, None)))"

text \<open>
  Modelled from the spec: \<open>git.GetFileContent\<close>, "reads blob content for filename at
  revision. When truncate is requested and content exceeds the configured byte cap,
  returns only the first cap bytes and sets truncated = true; the cap is a fixed
  configuration constant". A missing revision or file ends the subprocess with the
  bad-revision status.
\<close>

definition spec_GetFileContent ::
  "nat \<Rightarrow> string \<Rightarrow> string \<Rightarrow> string \<Rightarrow> string \<Rightarrow> bool \<Rightarrow> world
     \<Rightarrow> string \<times> bool \<times> error option" where
  "spec_GetFileContent cap user gist revision filename trunc w =
     (if (user, gist) \<in> set (damaged w) then ([], False, Some IOFailure)
      else case repos w (user, gist) of
        None \<Rightarrow> ([], False, Some bad_revision)
      | Some h \<Rightarrow>
          (case resolve revision h of
             None \<Rightarrow> ([], False, Some bad_revision)
           | Some t \<Rightarrow>
               (case map_of t filename of
                  None \<Rightarrow> ([], False, Some bad_revision)
                | Some content \<Rightarrow>
                    if trunc \<and> cap < length content then (take cap content, True, None)
                    else (content, False, None))))"

text \<open>
  Modelled from the spec: \<open>git.GetLog\<close>, "the commit log starting skip commits back
  from HEAD". A repository without commits has no HEAD to start from.
\<close>

definition spec_GetLog ::
  "string \<Rightarrow> string \<Rightarrow> string \<Rightarrow> world \<Rightarrow> history \<times> error option" where
  "spec_GetLog user gist skip w =
     (if (user, gist) \<in> set (damaged w) then ([], Some IOFailure)
      else case repos w (user, gist) of
        None \<Rightarrow> ([], Some bad_revision)
      | Some h \<Rightarrow>
          (case parse_decimal skip of
             None \<Rightarrow> ([], Some bad_revision)
           | Some n \<Rightarrow> if h = [] then ([], Some bad_revision) else (drop n h, None)))"

text \<open>
  Modelled from the spec: \<open>git.GetNumberOfCommitsOfRepository\<close>, "integer as text:
  total reachable commits from HEAD".
\<close>

definition spec_GetNumberOfCommitsOfRepository ::
  "string \<Rightarrow> string \<Rightarrow> world \<Rightarrow> string \<times> error option" where
  "spec_GetNumberOfCommitsOfRepository user gist w =
     (if (user, gist) \<in> set (damaged w) then ([], Some IOFailure)
      else case repos w (user, gist) of
        None \<Rightarrow> ([], Some bad_revision)
      | Some h \<Rightarrow> (decimal (length h), None))"

text \<open>
  Modelled from the spec: \<open>git.CloneTmp\<close>, step 1 of the edit transaction, "allocate a
  temporary clone keyed by a caller-chosen session id; clone the canonical repository
  (or, for a brand-new gist, initialize empty) into a scratch working directory".
\<close>

definition spec_CloneTmp ::
  "string \<Rightarrow> string \<Rightarrow> string \<Rightarrow> world \<Rightarrow> error option \<times> world" where
  "spec_CloneTmp user gist tmp w =
     (if CloneTmp_call user gist tmp \<in> set (failing w) then (Some IOFailure, w)
      else case repos w (user, gist) of
        None \<Rightarrow> (Some NotFound, w)
      | Some h \<Rightarrow>
          (let t = (case h of [] \<Rightarrow> [] | c # _ \<Rightarrow> snd c)
           in (None, w\<lparr>clones := (clones w)(tmp \<mapsto>
                 \<lparr>origin = (user, gist), base = h, branch = h, worktree = t, staged = t\<rparr>)\<rparr>)))"

text \<open>
  Modelled from the spec: \<open>git.SetFileContent\<close>, step 2, "write content to the
  corresponding path inside the working tree".
\<close>

definition spec_SetFileContent ::
  "string \<Rightarrow> string \<Rightarrow> string \<Rightarrow> world \<Rightarrow> error option \<times> world" where
  "spec_SetFileContent tmp filename content w =
     (if SetFileContent_call tmp filename content \<in> set (failing w) then (Some IOFailure, w)
      else case clones w tmp of
        None \<Rightarrow> (Some NotFound, w)
      | Some c \<Rightarrow>
          (None, w\<lparr>clones := (clones w)(tmp \<mapsto>
             c\<lparr>worktree := AList.update filename content (worktree c)\<rparr>)\<rparr>))"

text \<open>
  Modelled from the spec: \<open>git.AddAll\<close>, step 3, "stage all changes (adds, modifies,
  deletes) in one operation".
\<close>

definition spec_AddAll :: "string \<Rightarrow> world \<Rightarrow> error option \<times> world" where
  "spec_AddAll tmp w =
     (if AddAll_call tmp \<in> set (failing w) then (Some IOFailure, w)
      else case clones w tmp of
        None \<Rightarrow> (Some NotFound, w)
      | Some c \<Rightarrow> (None, w\<lparr>clones := (clones w)(tmp \<mapsto> c\<lparr>staged := worktree c\<rparr>)\<rparr>))"

text \<open>
  Modelled from the spec: \<open>git.Commit\<close>, step 4, "create a single commit covering all
  staged changes". The hash of the new commit is the decimal text of its position in
  the history.
\<close>

definition spec_Commit :: "string \<Rightarrow> world \<Rightarrow> error option \<times> world" where
  "spec_Commit tmp w =
     (if Commit_call tmp \<in> set (failing w) then (Some IOFailure, w)
      else case clones w tmp of
        None \<Rightarrow> (Some NotFound, w)
      | Some c \<Rightarrow>
          (None, w\<lparr>clones := (clones w)(tmp \<mapsto>
             c\<lparr>branch := (decimal (length (branch c)), staged c) # branch c\<rparr>)\<rparr>))"

text \<open>
  Modelled from the spec: \<open>git.Push\<close>, step 5, "push the resulting branch to the
  canonical repository. Push failure (e.g., non-fast-forward because of a concurrent
  write) is surfaced as a distinct Conflict outcome".
\<close>

definition spec_Push :: "string \<Rightarrow> world \<Rightarrow> error option \<times> world" where
  "spec_Push tmp w =
     (if Push_call tmp \<in> set (failing w) then (Some IOFailure, w)
      else case clones w tmp of
        None \<Rightarrow> (Some NotFound, w)
      | Some c \<Rightarrow>
          if repos w (origin c) = Some (base c)
          then (None, w\<lparr>repos := (repos w)(origin c \<mapsto> branch c)\<rparr>)
          else (Some Conflict, w))"

definition spec_git :: "nat \<Rightarrow> (world, history) git" where
  "spec_git cap =
     \<lparr>InitRepository = spec_InitRepository,
      GetFilesOfRepository = spec_GetFilesOfRepository,
      GetFileContent = spec_GetFileContent cap,
      GetLog = spec_GetLog,
      GetNumberOfCommitsOfRepository = spec_GetNumberOfCommitsOfRepository,
      CloneTmp = spec_CloneTmp,
      SetFileContent = spec_SetFileContent,
      AddAll = spec_AddAll,
      Commit = spec_Commit,
      Push = spec_Push\<rparr>"

text \<open>Sample inputs: a gist of user alice and some disks.\<close>

definition alice_gist :: Gist where
  "alice_gist =
     \<lparr>ID = 1, Uuid = ''g1'', Title = ''notes'', Preview = [], PreviewFilename = [],
      Description = [], Private = False, UserID = 7,
      User = \<lparr>User.ID = 7, Username = ''alice''\<rparr>,
      NbFiles = 1, NbLikes = 0, NbForks = 0, CreatedAt = 0, UpdatedAt = 0, ForkedID = 0\<rparr>"

definition empty_disk :: world where
  "empty_disk = \<lparr>repos = (\<lambda>_. None), clones = (\<lambda>_. None), failing = [], damaged = []\<rparr>"

definition one_commit_disk :: world where
  "one_commit_disk =
     \<lparr>repos = (\<lambda>_. None)((''alice'', ''g1'') \<mapsto> [(''0'', [(''a.txt'', ''hello world'')])]),
      clones = (\<lambda>_. None), failing = [], damaged = []\<rparr>"

definition fresh_disk :: world where
  "fresh_disk =
     \<lparr>repos = (\<lambda>_. None)((''alice'', ''g1'') \<mapsto> []),
      clones = (\<lambda>_. None), failing = [], damaged = []\<rparr>"

definition damaged_disk :: world where
  "damaged_disk = one_commit_disk\<lparr>damaged := [(''alice'', ''g1'')]\<rparr>"

definition stage_fails_disk :: world where
  "stage_fails_disk = one_commit_disk\<lparr>failing := [AddAll_call ''g1'']\<rparr>"

definition commit_fails_disk :: world where
  "commit_fails_disk = one_commit_disk\<lparr>failing := [Commit_call ''g1'']\<rparr>"

definition two_commit_disk :: world where
  "two_commit_disk =
     \<lparr>repos = (\<lambda>_. None)((''alice'', ''g1'') \<mapsto>
        [(''1'', [(''a.txt'', ''bye'')]), (''0'', [(''a.txt'', ''hello world'')])]),
      clones = (\<lambda>_. None), failing = [], damaged = []\<rparr>"

definition rename_entry :: File where
  "rename_entry =
     \<lparr>Filename = ''b.txt'', OldFilename = ''a.txt'', Content = ''x'', Truncated = False\<rparr>"

definition same_name_entry :: File where
  "same_name_entry =
     \<lparr>Filename = ''a.txt'', OldFilename = ''a.txt'', Content = ''x'', Truncated = False\<rparr>"

section \<open>The calls a transaction makes\<close>

text \<open>One call into the package, and a list of calls run until the first failure.\<close>

fun do_call :: "('s, 'l) git \<Rightarrow> call \<Rightarrow> 's \<Rightarrow> error option \<times> 's" where
  "do_call g (CloneTmp_call u i t) s = CloneTmp g u i t s"
| "do_call g (SetFileContent_call t f c) s = SetFileContent g t f c s"
| "do_call g (AddAll_call t) s = AddAll g t s"
| "do_call g (Commit_call t) s = Commit g t s"
| "do_call g (Push_call t) s = Push g t s"

fun run_calls ::
  "('s, 'l) git \<Rightarrow> call list \<Rightarrow> 's \<Rightarrow> error option \<times> (call \<times> error option) list \<times> 's" where
  "run_calls g [] s = (None, [], s)"
| "run_calls g (c # cs) s =
     (case do_call g c s of
        (Some e, s') \<Rightarrow> (Some e, [(c, Some e)], s')
      | (None, s') \<Rightarrow>
          (case run_calls g cs s' of (r, k, s'') \<Rightarrow> (r, (c, None) # k, s'')))"

text \<open>
  The journal of \<open>AddAndCommitFiles\<close>: the calls it made on a given input, in order,
  each with the error it returned.
\<close>

definition journal ::
  "('s, 'l) git \<Rightarrow> Gist \<Rightarrow> File list \<Rightarrow> 's \<Rightarrow> (call \<times> error option) list" where
  "journal g gist files s = fst (snd (Gist_AddAndCommitFiles (logged g) gist files ([], s)))"

text \<open>The calls that come before the push, when every step succeeds.\<close>

definition before_push :: "Gist \<Rightarrow> File list \<Rightarrow> call list" where
  "before_push gist files =
     CloneTmp_call (Username (User gist)) (Uuid gist) (Uuid gist)
     # map (\<lambda>file. SetFileContent_call (Uuid gist) (Filename file) (Content file)) files
     @ [AddAll_call (Uuid gist), Commit_call (Uuid gist)]"

section \<open>Validation of a \<open>File\<close>\<close>

text \<open>
  The \<open>validate\<close> struct tags of \<open>File\<close> are read by the validator library. The
  three rules they use: \<open>excludes=s\<close> holds when \<open>strings.Contains(value, s)\<close> is
  false, \<open>max=n\<close> on a string holds when \<open>utf8.RuneCountInString(value)\<close> is at
  most \<open>n\<close>, and \<open>required\<close> holds when the string is not empty.
\<close>

datatype rule = tag_excludes string | tag_max nat | tag_required

fun Contains :: "string \<Rightarrow> string \<Rightarrow> bool" where
  "Contains [] substr = (substr = [])"
| "Contains (c # cs) substr = (prefix substr (c # cs) \<or> Contains cs substr)"

text \<open>
  The number of bytes of the first rune of a non-empty UTF-8 byte string, as Go decodes
  it: an ASCII byte, or a lead byte with its continuation bytes in the accepted ranges,
  or else a single invalid byte. \<open>lead_byte\<close> gives, for a lead byte, the size of the
  sequence and the range accepted for the second byte.
\<close>

definition lead_byte :: "nat \<Rightarrow> (nat \<times> nat \<times> nat) option" where
  "lead_byte b =
     (if b < 0xC2 then None
      else if b \<le> 0xDF then Some (2, 0x80, 0xBF)
      else if b = 0xE0 then Some (3, 0xA0, 0xBF)
      else if b = 0xED then Some (3, 0x80, 0x9F)
      else if b \<le> 0xEF then Some (3, 0x80, 0xBF)
      else if b = 0xF0 then Some (4, 0x90, 0xBF)
      else if b \<le> 0xF3 then Some (4, 0x80, 0xBF)
      else if b = 0xF4 then Some (4, 0x80, 0x8F)
      else None)"

definition continuation :: "char \<Rightarrow> bool" where
  "continuation c \<longleftrightarrow> 0x80 \<le> (of_char c :: nat) \<and> (of_char c :: nat) \<le> 0xBF"

definition rune_size :: "string \<Rightarrow> nat" where
  "rune_size s =
     (case s of
        [] \<Rightarrow> 1
      | c # cs \<Rightarrow>
          if (of_char c :: nat) < 0x80 then 1
          else case lead_byte (of_char c) of
            None \<Rightarrow> 1
          | Some (n, lo, hi) \<Rightarrow>
              if length s < n then 1
              else if (of_char (cs ! 0) :: nat) < lo \<or> hi < (of_char (cs ! 0) :: nat) then 1
              else if n = 2 then 2
              else if \<not> continuation (cs ! 1) then 1
              else if n = 3 then 3
              else if \<not> continuation (cs ! 2) then 1
              else 4)"

function RuneCountInString :: "string \<Rightarrow> nat" where
  "RuneCountInString [] = 0"
| "RuneCountInString (c # cs) = Suc (RuneCountInString (drop (rune_size (c # cs) - 1) cs))"
  by pat_completeness auto
termination
  by (relation "measure length") auto

fun check_rule :: "rule \<Rightarrow> string \<Rightarrow> bool" where
  "check_rule (tag_excludes s) v = (\<not> Contains v s)"
| "check_rule (tag_max n) v = (RuneCountInString v \<le> n)"
| "check_rule tag_required v = (v \<noteq> [])"

text \<open>The tags of the three validated fields, in the order they are written.\<close>

definition Filename_tag :: "rule list" where
  "Filename_tag = [tag_excludes [CHR 0x2f], tag_excludes [CHR 0x5c], tag_max 50]"

definition OldFilename_tag :: "rule list" where
  "OldFilename_tag = [tag_excludes [CHR 0x2f], tag_excludes [CHR 0x5c], tag_max 50]"

definition Content_tag :: "rule list" where
  "Content_tag = [tag_required]"

definition validate_File :: "File \<Rightarrow> bool" where
  "validate_File f \<longleftrightarrow>
     list_all (\<lambda>r. check_rule r (Filename f)) Filename_tag
     \<and> list_all (\<lambda>r. check_rule r (OldFilename f)) OldFilename_tag
     \<and> list_all (\<lambda>r. check_rule r (Content f)) Content_tag"

section \<open>The path a filename names\<close>

text \<open>
  Modelled from the spec: where \<open>git.SetFileContent\<close> writes, "the corresponding path
  inside the working tree": the clone's directory joined with the filename. A path is
  split at each \<open>/\<close> and cleaned as an absolute path: empty and \<open>.\<close> elements go,
  and \<open>..\<close> removes the element before it (none at the root).
\<close>

fun split_path :: "string \<Rightarrow> string list" where
  "split_path [] = [[]]"
| "split_path (c # cs) =
     (if c = CHR 0x2f then [] # split_path cs
      else case split_path cs of [] \<Rightarrow> [[c]] | p # ps \<Rightarrow> (c # p) # ps)"

definition clean_step :: "string list \<Rightarrow> string \<Rightarrow> string list" where
  "clean_step stack elem =
     (if elem = [] \<or> elem = ''.'' then stack
      else if elem = ''..'' then butlast stack
      else stack @ [elem])"

definition Clean :: "string \<Rightarrow> string list" where
  "Clean p = foldl clean_step [] (split_path p)"

definition tmp_file_path :: "string \<Rightarrow> string \<Rightarrow> string list" where
  "tmp_file_path tree filename = Clean (tree @ [CHR 0x2f] @ filename)"

text \<open>A path is an entry of the top-level directory of the tree.\<close>

definition top_level_entry :: "string \<Rightarrow> string list \<Rightarrow> bool" where
  "top_level_entry tree p \<longleftrightarrow> p \<noteq> [] \<and> butlast p = Clean tree"

definition dotdot_entry :: File where
  "dotdot_entry = \<lparr>Filename = ''..'', OldFilename = [], Content = ''x'', Truncated = False\<rparr>"

section \<open>Evaluation rules\<close>

lemmas spec_defs =
  spec_git_def spec_InitRepository_def spec_GetFilesOfRepository_def
  spec_GetFileContent_def spec_GetLog_def spec_GetNumberOfCommitsOfRepository_def
  spec_CloneTmp_def spec_SetFileContent_def spec_AddAll_def spec_Commit_def spec_Push_def
  bad_revision_def resolve_def parse_decimal_def
  IOFailure_def NotFound_def Conflict_def AlreadyExists_def

lemmas disk_defs =
  alice_gist_def empty_disk_def one_commit_disk_def fresh_disk_def damaged_disk_def
  stage_fails_disk_def commit_fails_disk_def two_commit_disk_def rename_entry_def
  same_name_entry_def

lemmas txn_defs = Gist_AddAndCommitFiles_def journal_def logged_def Let_def

section \<open>Reading a file\<close>

lemma is_exit128_iff: "is_exit128 err \<longleftrightarrow> err = Some (ExitError 128)"
  by (cases err rule: is_exit128.cases) auto

text \<open>
  C9. When \<open>GetFileContent\<close> fails with anything but exit status 128, \<open>File\<close>
  returns a non-nil \<open>File\<close> holding the requested filename and the content and
  truncated flag that were produced, together with that error; and the pair
  (nil, nil) is returned exactly when the failure is exit status 128, so a nil error
  does not say that the \<open>File\<close> is non-nil.
\<close>

theorem File_error_keeps_file:
  "(GetFileContent g (Username (User gist)) (Uuid gist) revision filename trunc s
      = (content, truncated, Some e) \<and> e \<noteq> ExitError 128 \<longrightarrow>
    Gist_File g gist revision filename trunc s
      = (Some \<lparr>Filename = filename, OldFilename = [], Content = content,
               Truncated = truncated\<rparr>, Some e))
   \<and> (Gist_File g gist revision filename trunc s = (None, None) \<longleftrightarrow>
      snd (snd (GetFileContent g (Username (User gist)) (Uuid gist) revision filename
                  trunc s)) = Some (ExitError 128))
   \<and> (fst (Gist_File g gist revision filename trunc s) = None \<longleftrightarrow>
      snd (snd (GetFileContent g (Username (User gist)) (Uuid gist) revision filename
                  trunc s)) = Some (ExitError 128))"
  by (auto simp: Gist_File_def is_exit128_iff split: prod.splits)

theorem File_error_keeps_file_witness:
  "Gist_File (spec_git 5) alice_gist ''HEAD'' ''a.txt'' True damaged_disk
     = (Some \<lparr>Filename = ''a.txt'', OldFilename = [], Content = [], Truncated = False\<rparr>,
        Some IOFailure)
   \<and> IOFailure \<noteq> ExitError 128
   \<and> Gist_File (spec_git 5) alice_gist ''HEAD'' ''b.txt'' False one_commit_disk = (None, None)"
proof -
  have a: "GetFileContent (spec_git 5) (Username (User alice_gist)) (Uuid alice_gist) ''HEAD''
             ''a.txt'' True damaged_disk = ([], False, Some IOFailure)"
    by (simp add: spec_defs disk_defs)
  have b: "IOFailure \<noteq> ExitError 128"
    by (simp add: IOFailure_def)
  have c: "snd (snd (GetFileContent (spec_git 5) (Username (User alice_gist)) (Uuid alice_gist)
             ''HEAD'' ''b.txt'' False one_commit_disk)) = Some (ExitError 128)"
    by (simp add: spec_defs disk_defs)
  from a b c
    File_error_keeps_file [of "spec_git 5" alice_gist "''HEAD''" "''a.txt''" True damaged_disk
      "[]" False IOFailure]
    File_error_keeps_file [of "spec_git 5" alice_gist "''HEAD''" "''b.txt''" False one_commit_disk]
  show ?thesis by simp
qed

section \<open>Not-found translation in the read operations\<close>

lemma Files_loop_not_128:
  "snd (Files_loop g gist revision s names files) \<noteq> Some (ExitError 128)"
proof (induction names arbitrary: files)
  case Nil
  then show ?case by simp
next
  case (Cons n names)
  obtain f e where gf: "Gist_File g gist revision n True s = (f, e)"
    by (cases "Gist_File g gist revision n True s")
  show ?case
  proof (cases e)
    case None
    with gf Cons.IH show ?thesis by simp
  next
    case (Some err)
    with gf have "err \<noteq> ExitError 128"
      by (auto simp: Gist_File_def is_exit128_iff split: prod.splits if_splits)
    with gf Some show ?thesis by simp
  qed
qed

text \<open>
  C1 (as amended). For \<open>Files\<close> and \<open>File\<close>: when the listing subprocess, or the
  content subprocess, exits with status 128, the operation returns the not-found
  outcome (nil, nil); and neither operation ever returns an exit-128 error to its
  caller.
\<close>

theorem Files_and_File_translate_exit128:
  "(snd (GetFilesOfRepository g (Username (User gist)) (Uuid gist) revision s)
       = Some (ExitError 128) \<longrightarrow> Gist_Files g gist revision s = ([], None))
   \<and> (snd (snd (GetFileContent g (Username (User gist)) (Uuid gist) revision filename trunc s))
       = Some (ExitError 128) \<longrightarrow> Gist_File g gist revision filename trunc s = (None, None))
   \<and> snd (Gist_Files g gist revision s) \<noteq> Some (ExitError 128)
   \<and> snd (Gist_File g gist revision filename trunc s) \<noteq> Some (ExitError 128)"
proof (intro conjI impI)
  assume "snd (GetFilesOfRepository g (Username (User gist)) (Uuid gist) revision s)
            = Some (ExitError 128)"
  then show "Gist_Files g gist revision s = ([], None)"
    by (auto simp: Gist_Files_def split: prod.splits option.splits)
next
  assume "snd (snd (GetFileContent g (Username (User gist)) (Uuid gist) revision filename trunc s))
            = Some (ExitError 128)"
  then show "Gist_File g gist revision filename trunc s = (None, None)"
    by (auto simp: Gist_File_def split: prod.splits)
next
  show "snd (Gist_Files g gist revision s) \<noteq> Some (ExitError 128)"
    by (auto simp: Gist_Files_def Files_loop_not_128 is_exit128_iff
        split: prod.splits option.splits)
next
  show "snd (Gist_File g gist revision filename trunc s) \<noteq> Some (ExitError 128)"
    by (auto simp: Gist_File_def is_exit128_iff split: prod.splits)
qed

theorem Files_and_File_translate_exit128_witness:
  "snd (GetFilesOfRepository (spec_git 5) (Username (User alice_gist)) (Uuid alice_gist) ''HEAD''
          fresh_disk) = Some (ExitError 128)
   \<and> Gist_Files (spec_git 5) alice_gist ''HEAD'' fresh_disk = ([], None)
   \<and> snd (snd (GetFileContent (spec_git 5) (Username (User alice_gist)) (Uuid alice_gist) ''HEAD''
          ''a.txt'' True fresh_disk)) = Some (ExitError 128)
   \<and> Gist_File (spec_git 5) alice_gist ''HEAD'' ''a.txt'' True fresh_disk = (None, None)"
proof -
  have a: "snd (GetFilesOfRepository (spec_git 5) (Username (User alice_gist)) (Uuid alice_gist)
             ''HEAD'' fresh_disk) = Some (ExitError 128)"
    by (simp add: spec_defs disk_defs)
  have b: "snd (snd (GetFileContent (spec_git 5) (Username (User alice_gist)) (Uuid alice_gist)
             ''HEAD'' ''a.txt'' True fresh_disk)) = Some (ExitError 128)"
    by (simp add: spec_defs disk_defs)
  from a b Files_and_File_translate_exit128
             [of "spec_git 5" alice_gist "''HEAD''" fresh_disk "''a.txt''" True]
  show ?thesis by simp
qed

text \<open>
  The claim as stated covers \<open>Log\<close> too. On a freshly initialised repository the log
  subprocess exits with status 128, and \<open>Log\<close> hands that error to its caller.
\<close>

theorem Log_passes_exit128_counterexample:
  "snd (GetLog (spec_git 5) (Username (User alice_gist)) (Uuid alice_gist) ''0'' fresh_disk)
     = Some (ExitError 128)
   \<and> Gist_Log (spec_git 5) alice_gist ''0'' fresh_disk = Some (ExitError 128)"
  by (simp add: Gist_Log_def spec_defs disk_defs)

section \<open>The log\<close>

text \<open>
  C8 (as amended). \<open>Log\<close> calls \<open>GetLog\<close> with the skip it was given and returns
  the error of that call, nothing else: the log itself is dropped.
\<close>

theorem Log_returns_error_only:
  "Gist_Log g gist skip s = snd (GetLog g (Username (User gist)) (Uuid gist) skip s)"
  by (simp add: Gist_Log_def split: prod.split)

text \<open>
  The claim as stated has the log reach the caller. Two repositories with different
  logs give the same result of \<open>Log\<close>.
\<close>

theorem Log_drops_log_counterexample:
  "Gist_Log (spec_git 5) alice_gist ''0'' one_commit_disk
     = Gist_Log (spec_git 5) alice_gist ''0'' two_commit_disk
   \<and> fst (GetLog (spec_git 5) (Username (User alice_gist)) (Uuid alice_gist) ''0'' one_commit_disk)
     \<noteq> fst (GetLog (spec_git 5) (Username (User alice_gist)) (Uuid alice_gist) ''0'' two_commit_disk)"
  by (simp add: Gist_Log_def spec_defs disk_defs)

section \<open>The edit transaction as a run of calls\<close>

lemma run_calls_append:
  "run_calls g (xs @ ys) s =
     (case run_calls g xs s of
        (Some e, k, s') \<Rightarrow> (Some e, k, s')
      | (None, k, s') \<Rightarrow> (case run_calls g ys s' of (r, k', s'') \<Rightarrow> (r, k @ k', s'')))"
  by (induction xs arbitrary: s) (auto split: prod.splits option.splits)

lemma write_files_run:
  "write_files g gist files s =
     (case run_calls g (map (\<lambda>file. SetFileContent_call (Uuid gist) (Filename file) (Content file)) files) s of
        (r, k, s') \<Rightarrow> (r, s'))"
  by (induction files arbitrary: s) (auto split: prod.splits option.splits)

lemma write_files_logged_run:
  "write_files (logged g) gist files (l, s) =
     (case run_calls g (map (\<lambda>file. SetFileContent_call (Uuid gist) (Filename file) (Content file)) files) s of
        (r, k, s') \<Rightarrow> (r, (l @ k, s')))"
  by (induction files arbitrary: l s) (auto simp: logged_def split: prod.splits option.splits)

lemma AddAndCommitFiles_run:
  "Gist_AddAndCommitFiles g gist files s =
     (case run_calls g (expected_calls gist files) s of (r, k, s') \<Rightarrow> (r, s'))"
proof (cases "CloneTmp g (Username (User gist)) (Uuid gist) (Uuid gist) s")
  case (Pair e1 s1)
  show ?thesis
  proof (cases e1)
    case (Some e)
    with Pair show ?thesis
      by (simp add: Gist_AddAndCommitFiles_def expected_calls_def)
  next
    case None
    obtain e2 k2 s2 where w: "run_calls g (map (\<lambda>file. SetFileContent_call (Uuid gist) (Filename file) (Content file)) files) s1 = (e2, k2, s2)"
      by (metis prod_cases3)
    show ?thesis
    proof (cases e2)
      case (Some e)
      with Pair None w show ?thesis
        by (simp add: Gist_AddAndCommitFiles_def expected_calls_def run_calls_append write_files_run)
    next
      case n2: None
      with Pair None w show ?thesis
        by (simp add: Gist_AddAndCommitFiles_def expected_calls_def run_calls_append write_files_run
            split: prod.split option.split)
    qed
  qed
qed


lemma AddAndCommitFiles_logged_run:
  "Gist_AddAndCommitFiles (logged g) gist files (l, s) =
     (case run_calls g (expected_calls gist files) s of (r, k, s') \<Rightarrow> (r, (l @ k, s')))"
proof (cases "CloneTmp g (Username (User gist)) (Uuid gist) (Uuid gist) s")
  case (Pair e1 s1)
  show ?thesis
  proof (cases e1)
    case (Some e)
    with Pair show ?thesis
      by (simp add: Gist_AddAndCommitFiles_def expected_calls_def logged_def)
  next
    case None
    obtain e2 k2 s2 where w: "run_calls g (map (\<lambda>file. SetFileContent_call (Uuid gist) (Filename file) (Content file)) files) s1 = (e2, k2, s2)"
      by (metis prod_cases3)
    have c: "CloneTmp (logged g) (Username (User gist)) (Uuid gist) (Uuid gist) (l, s)
               = (None, (l @ [(CloneTmp_call (Username (User gist)) (Uuid gist) (Uuid gist), None)], s1))"
      using Pair None by (simp add: logged_def)
    have ops: "AddAll (logged g) t (l', s') = (case AddAll g t s' of (e, s'') \<Rightarrow> (e, (l' @ [(AddAll_call t, e)], s'')))"
      "Commit (logged g) t (l', s') = (case Commit g t s' of (e, s'') \<Rightarrow> (e, (l' @ [(Commit_call t, e)], s'')))"
      "Push (logged g) t (l', s') = (case Push g t s' of (e, s'') \<Rightarrow> (e, (l' @ [(Push_call t, e)], s'')))"
      for t l' s'
      by (simp_all add: logged_def)
    show ?thesis
    proof (cases e2)
      case (Some e)
      with Pair None w c show ?thesis
        by (simp add: Gist_AddAndCommitFiles_def expected_calls_def run_calls_append write_files_logged_run)
    next
      case n2: None
      with Pair None w c show ?thesis
        by (simp add: Gist_AddAndCommitFiles_def expected_calls_def run_calls_append write_files_logged_run ops
            split: prod.split option.split)
    qed
  qed
qed

lemma journal_run: "journal g gist files s = fst (snd (run_calls g (expected_calls gist files) s))"
  by (simp add: journal_def AddAndCommitFiles_logged_run split: prod.split)

text \<open>
  Keeping the journal changes nothing else: the run with a journal returns the same
  error and the same state as the run without, and appends its calls to the journal.
\<close>

lemma logged_transparent:
  "Gist_AddAndCommitFiles (logged g) gist files (l, s) =
     (fst (Gist_AddAndCommitFiles g gist files s),
      l @ journal g gist files s,
      snd (Gist_AddAndCommitFiles g gist files s))"
  unfolding AddAndCommitFiles_logged_run
  by (simp add: AddAndCommitFiles_run journal_run split: prod.split)

lemma run_calls_shape:
  "run_calls g cs s = (r, k, s') \<Longrightarrow>
     map fst k = take (length k) cs
     \<and> (\<forall>e\<in>set (butlast k). snd e = None)
     \<and> (k \<noteq> [] \<longrightarrow> snd (last k) = r)
     \<and> (k = [] \<longrightarrow> r = None \<and> cs = [])
     \<and> (r = None \<longrightarrow> map fst k = cs)"
proof (induction cs arbitrary: s r k s')
  case Nil
  then show ?case by simp
next
  case (Cons c cs)
  obtain e1 s1 where d: "do_call g c s = (e1, s1)" by (cases "do_call g c s")
  show ?case
  proof (cases e1)
    case (Some e)
    with Cons.prems d have "k = [(c, Some e)]" "r = Some e" by auto
    then show ?thesis by simp
  next
    case None
    obtain r2 k2 s2 where rr: "run_calls g cs s1 = (r2, k2, s2)" by (metis prod_cases3)
    with Cons.prems d None have eq: "r = r2" "k = (c, None) # k2" by auto
    from Cons.IH[OF rr] eq show ?thesis by (cases "k2 = []") auto
  qed
qed

lemma run_calls_invariant:
  "run_calls g cs s = (r, k, s') \<Longrightarrow> I s \<Longrightarrow>
   (\<And>c x. c \<in> fst ` set k \<Longrightarrow> I x \<Longrightarrow> I (snd (do_call g c x))) \<Longrightarrow> I s'"
proof (induction cs arbitrary: s r k s')
  case Nil
  then show ?case by simp
next
  case (Cons c cs)
  obtain e1 s1 where d: "do_call g c s = (e1, s1)" by (cases "do_call g c s")
  show ?case
  proof (cases e1)
    case (Some e)
    with Cons.prems(1) d have "k = [(c, Some e)]" "s' = s1" by auto
    with Cons.prems(3)[of c s] Cons.prems(2) d show ?thesis by auto
  next
    case None
    obtain r2 k2 s2 where rr: "run_calls g cs s1 = (r2, k2, s2)" by (metis prod_cases3)
    with Cons.prems(1) d None have eq: "r = r2" "k = (c, None) # k2" "s' = s2" by auto
    have "I s1" using Cons.prems(3)[of c s] Cons.prems(2) d eq by auto
    from Cons.IH[OF rr this] Cons.prems(3) eq show ?thesis by auto
  qed
qed

lemma expected_calls_split:
  "expected_calls gist files = before_push gist files @ [Push_call (Uuid gist)]"
  by (simp add: expected_calls_def before_push_def)

lemma before_push_kinds:
  "c \<in> set (before_push gist files) \<Longrightarrow>
     (\<exists>u i t. c = CloneTmp_call u i t) \<or> (\<exists>t f x. c = SetFileContent_call t f x)
     \<or> (\<exists>t. c = AddAll_call t) \<or> (\<exists>t. c = Commit_call t)"
  by (auto simp: before_push_def)

lemma run_calls_subset:
  assumes "run_calls g cs s = (r, k, s')"
  shows "fst ` set k \<subseteq> set cs"
proof -
  have "map fst k = take (length k) cs" using run_calls_shape[OF assms] by blast
  then have "set (map fst k) \<subseteq> set cs" by (metis set_take_subset)
  then show ?thesis by simp
qed

lemma transaction_cases:
  "(\<exists>e k x. run_calls g (before_push gist files) s = (Some e, k, x)
        \<and> run_calls g (expected_calls gist files) s = (Some e, k, x)
        \<and> Push_call (Uuid gist) \<notin> fst ` set k)
   \<or> (\<exists>k x. run_calls g (before_push gist files) s = (None, k, x)
        \<and> run_calls g (expected_calls gist files) s
            = (fst (Push g (Uuid gist) x),
               k @ [(Push_call (Uuid gist), fst (Push g (Uuid gist) x))],
               snd (Push g (Uuid gist) x)))"
proof -
  obtain r k x where rr: "run_calls g (before_push gist files) s = (r, k, x)"
    by (metis prod_cases3)
  have np: "Push_call (Uuid gist) \<notin> fst ` set k"
    using run_calls_subset[OF rr] before_push_kinds[of "Push_call (Uuid gist)" gist files]
    by auto
  show ?thesis
  proof (cases r)
    case None
    with rr show ?thesis
      by (simp add: expected_calls_split run_calls_append split: prod.split option.split)
  next
    case (Some e)
    with rr np show ?thesis
      by (simp add: expected_calls_split run_calls_append)
  qed
qed

lemma before_push_frame:
  assumes "\<And>u i t x. canon (snd (CloneTmp g u i t x)) = canon x"
    and "\<And>t f c x. canon (snd (SetFileContent g t f c x)) = canon x"
    and "\<And>t x. canon (snd (AddAll g t x)) = canon x"
    and "\<And>t x. canon (snd (Commit g t x)) = canon x"
    and rr: "run_calls g (before_push gist files) s = (r, k, x)"
  shows "canon x = canon s"
proof (rule run_calls_invariant[OF rr, where I = "\<lambda>y. canon y = canon s"])
  show "canon s = canon s" by simp
next
  fix c y
  assume "c \<in> fst ` set k" and y: "canon y = canon s"
  then have "c \<in> set (before_push gist files)" using run_calls_subset[OF rr] by auto
  from before_push_kinds[OF this] assms(1-4) y
  show "canon (snd (do_call g c y)) = canon s" by auto
qed





text \<open>What the modelled package leaves alone.\<close>

lemma spec_git_frame:
  "repos (snd (CloneTmp (spec_git cap) u i t x)) = repos x"
  "repos (snd (SetFileContent (spec_git cap) t f c x)) = repos x"
  "repos (snd (AddAll (spec_git cap) t x)) = repos x"
  "repos (snd (Commit (spec_git cap) t x)) = repos x"
  by (simp_all add: spec_defs Let_def split: option.split)

lemma spec_git_keeps_clone:
  "CloneTmp (spec_git cap) u i t x = (None, y) \<Longrightarrow> clones y t \<noteq> None"
  "clones x n \<noteq> None \<Longrightarrow> clones (snd (SetFileContent (spec_git cap) t f c x)) n \<noteq> None"
  "clones x n \<noteq> None \<Longrightarrow> clones (snd (AddAll (spec_git cap) t x)) n \<noteq> None"
  "clones x n \<noteq> None \<Longrightarrow> clones (snd (Commit (spec_git cap) t x)) n \<noteq> None"
  by (auto simp: spec_defs Let_def split: option.splits if_splits)

section \<open>Order of the steps\<close>

text \<open>
  C4. The calls of every edit transaction are an initial part of: clone, one write per
  supplied file in the order given, one stage-all, one commit, one push. Every call but
  the last one made succeeded and the transaction returns what the last one returned,
  so a failing step is the last step; a transaction that succeeds made all the calls.
\<close>

theorem transaction_order:
  "map fst (journal g gist files s) = take (length (journal g gist files s)) (expected_calls gist files)
   \<and> journal g gist files s \<noteq> []
   \<and> snd (last (journal g gist files s)) = fst (Gist_AddAndCommitFiles g gist files s)
   \<and> (\<forall>e\<in>set (butlast (journal g gist files s)). snd e = None)
   \<and> (fst (Gist_AddAndCommitFiles g gist files s) = None \<longrightarrow>
        map fst (journal g gist files s) = expected_calls gist files)"
proof -
  obtain r k s' where rr: "run_calls g (expected_calls gist files) s = (r, k, s')"
    by (metis prod_cases3)
  have j: "journal g gist files s = k" using rr by (simp add: journal_run)
  have f: "fst (Gist_AddAndCommitFiles g gist files s) = r"
    using rr by (simp add: AddAndCommitFiles_run)
  have ne: "expected_calls gist files \<noteq> []" by (simp add: expected_calls_def)
  from run_calls_shape[OF rr] ne show ?thesis unfolding j f by blast
qed

theorem transaction_order_witness:
  "map fst (journal (spec_git 5) alice_gist [rename_entry] stage_fails_disk)
     = [CloneTmp_call ''alice'' ''g1'' ''g1'', SetFileContent_call ''g1'' ''b.txt'' ''x'',
        AddAll_call ''g1'']
   \<and> fst (Gist_AddAndCommitFiles (spec_git 5) alice_gist [rename_entry] stage_fails_disk)
     = Some IOFailure
   \<and> fst (Gist_AddAndCommitFiles (spec_git 5) alice_gist [rename_entry] one_commit_disk) = None
   \<and> map fst (journal (spec_git 5) alice_gist [rename_entry] one_commit_disk)
     = [CloneTmp_call ''alice'' ''g1'' ''g1'', SetFileContent_call ''g1'' ''b.txt'' ''x'',
        AddAll_call ''g1'', Commit_call ''g1'', Push_call ''g1'']"
proof -
  have j: "journal (spec_git 5) alice_gist [rename_entry] stage_fails_disk
             = [(CloneTmp_call ''alice'' ''g1'' ''g1'', None),
                (SetFileContent_call ''g1'' ''b.txt'' ''x'', None),
                (AddAll_call ''g1'', Some IOFailure)]"
    by (simp add: txn_defs spec_defs disk_defs)
  have ok: "fst (Gist_AddAndCommitFiles (spec_git 5) alice_gist [rename_entry] one_commit_disk)
              = None"
    by (simp add: txn_defs spec_defs disk_defs)
  have e: "expected_calls alice_gist [rename_entry]
             = [CloneTmp_call ''alice'' ''g1'' ''g1'', SetFileContent_call ''g1'' ''b.txt'' ''x'',
                AddAll_call ''g1'', Commit_call ''g1'', Push_call ''g1'']"
    by (simp add: expected_calls_def disk_defs)
  have r1: "fst (Gist_AddAndCommitFiles (spec_git 5) alice_gist [rename_entry] stage_fails_disk)
              = Some IOFailure"
    using transaction_order [of "spec_git 5" alice_gist "[rename_entry]" stage_fails_disk] j
    by simp
  have r2: "map fst (journal (spec_git 5) alice_gist [rename_entry] one_commit_disk)
              = expected_calls alice_gist [rename_entry]"
    using transaction_order [of "spec_git 5" alice_gist "[rename_entry]" one_commit_disk] ok
    by blast
  show ?thesis using j r1 ok r2 e by simp
qed

section \<open>The canonical repository\<close>

text \<open>
  C2. Let \<open>canon\<close> be what the state holds of the canonical repositories, and let
  clone, write, stage and commit leave it alone, as the specification has it. Then a
  transaction that did not reach the push leaves \<open>canon\<close> as it was; and one that
  reached it handed to the push a state whose \<open>canon\<close> was still the initial one,
  and returns what the push returns.
\<close>

theorem canonical_changed_by_push_only:
  assumes "\<And>u i t x. canon (snd (CloneTmp g u i t x)) = canon x"
    and "\<And>t f c x. canon (snd (SetFileContent g t f c x)) = canon x"
    and "\<And>t x. canon (snd (AddAll g t x)) = canon x"
    and "\<And>t x. canon (snd (Commit g t x)) = canon x"
  shows "(Push_call (Uuid gist) \<notin> fst ` set (journal g gist files s) \<longrightarrow>
            canon (snd (Gist_AddAndCommitFiles g gist files s)) = canon s)
       \<and> (Push_call (Uuid gist) \<in> fst ` set (journal g gist files s) \<longrightarrow>
            (\<exists>x. canon x = canon s
               \<and> Gist_AddAndCommitFiles g gist files s = Push g (Uuid gist) x))"
proof -
  from transaction_cases[of g gist files s] show ?thesis
  proof (elim disjE exE conjE)
    fix e k x
    assume b: "run_calls g (before_push gist files) s = (Some e, k, x)"
      and r: "run_calls g (expected_calls gist files) s = (Some e, k, x)"
      and np: "Push_call (Uuid gist) \<notin> fst ` set k"
    have "canon x = canon s" using before_push_frame[OF assms b] .
    with r np show ?thesis by (simp add: journal_run AddAndCommitFiles_run)
  next
    fix k x
    assume b: "run_calls g (before_push gist files) s = (None, k, x)"
      and r: "run_calls g (expected_calls gist files) s
            = (fst (Push g (Uuid gist) x),
               k @ [(Push_call (Uuid gist), fst (Push g (Uuid gist) x))],
               snd (Push g (Uuid gist) x))"
    have "canon x = canon s" using before_push_frame[OF assms b] .
    with r show ?thesis by (auto simp: journal_run AddAndCommitFiles_run)
  qed
qed

theorem canonical_changed_by_push_only_witness:
  "Push_call (Uuid alice_gist)
     \<notin> fst ` set (journal (spec_git 5) alice_gist [rename_entry] stage_fails_disk)
   \<and> repos (snd (Gist_AddAndCommitFiles (spec_git 5) alice_gist [rename_entry] stage_fails_disk))
     = repos stage_fails_disk
   \<and> Push_call (Uuid alice_gist)
     \<in> fst ` set (journal (spec_git 5) alice_gist [rename_entry] one_commit_disk)
   \<and> (\<exists>x. repos x = repos one_commit_disk
        \<and> Gist_AddAndCommitFiles (spec_git 5) alice_gist [rename_entry] one_commit_disk
          = Push (spec_git 5) (Uuid alice_gist) x)"
proof -
  have a: "Push_call (Uuid alice_gist)
             \<notin> fst ` set (journal (spec_git 5) alice_gist [rename_entry] stage_fails_disk)"
    by (simp add: txn_defs spec_defs disk_defs)
  have b: "Push_call (Uuid alice_gist)
             \<in> fst ` set (journal (spec_git 5) alice_gist [rename_entry] one_commit_disk)"
    by (simp add: txn_defs spec_defs disk_defs)
  from a b
    canonical_changed_by_push_only [of repos "spec_git 5" alice_gist "[rename_entry]"
      stage_fails_disk, OF spec_git_frame]
    canonical_changed_by_push_only [of repos "spec_git 5" alice_gist "[rename_entry]"
      one_commit_disk, OF spec_git_frame]
  show ?thesis by blast
qed

section \<open>The temporary clone\<close>

text \<open>
  C3 (as amended). \<open>AddAndCommitFiles\<close> has no teardown step. Let \<open>P\<close> say that
  the temporary clone is on disk: it holds after a successful clone, and write, stage
  and commit keep it. Then a transaction whose clone succeeded and that did not reach
  the push returns an error and leaves the clone on disk.
\<close>

theorem clone_left_behind_on_failure:
  assumes cl: "\<And>x y. CloneTmp g (Username (User gist)) (Uuid gist) (Uuid gist) x = (None, y) \<Longrightarrow> P y"
    and wr: "\<And>t f c x. P x \<Longrightarrow> P (snd (SetFileContent g t f c x))"
    and st: "\<And>t x. P x \<Longrightarrow> P (snd (AddAll g t x))"
    and co: "\<And>t x. P x \<Longrightarrow> P (snd (Commit g t x))"
    and ok: "fst (CloneTmp g (Username (User gist)) (Uuid gist) (Uuid gist) s) = None"
    and np: "Push_call (Uuid gist) \<notin> fst ` set (journal g gist files s)"
  shows "fst (Gist_AddAndCommitFiles g gist files s) \<noteq> None
         \<and> P (snd (Gist_AddAndCommitFiles g gist files s))"
proof -
  obtain s1 where c1: "CloneTmp g (Username (User gist)) (Uuid gist) (Uuid gist) s = (None, s1)"
    using ok by (cases "CloneTmp g (Username (User gist)) (Uuid gist) (Uuid gist) s") auto
  have p1: "P s1" using cl[OF c1] .
  let ?rest = "map (\<lambda>file. SetFileContent_call (Uuid gist) (Filename file) (Content file)) files
               @ [AddAll_call (Uuid gist), Commit_call (Uuid gist), Push_call (Uuid gist)]"
  obtain r k x where rr: "run_calls g ?rest s1 = (r, k, x)" by (metis prod_cases3)
  have whole: "run_calls g (expected_calls gist files) s
                 = (r, (CloneTmp_call (Username (User gist)) (Uuid gist) (Uuid gist), None) # k, x)"
    using c1 rr by (simp add: expected_calls_def)
  have npk: "Push_call (Uuid gist) \<notin> fst ` set k"
    using np whole by (simp add: journal_run)
  have "P x"
  proof (rule run_calls_invariant[OF rr, where I = P])
    show "P s1" by (rule p1)
  next
    fix c y
    assume ck: "c \<in> fst ` set k" and py: "P y"
    then have "c \<in> set ?rest" using run_calls_subset[OF rr] by blast
    moreover have "c \<noteq> Push_call (Uuid gist)" using ck npk by blast
    ultimately show "P (snd (do_call g c y))" using wr st co py by auto
  qed
  moreover have "r \<noteq> None"
  proof
    assume "r = None"
    then have "map fst k = ?rest" using run_calls_shape[OF rr] by blast
    then have "Push_call (Uuid gist) \<in> set (map fst k)" by simp
    then show False using npk by simp
  qed
  ultimately show ?thesis using whole by (simp add: AddAndCommitFiles_run)
qed

theorem clone_left_behind_on_failure_witness:
  "fst (CloneTmp (spec_git 5) (Username (User alice_gist)) (Uuid alice_gist) (Uuid alice_gist)
          commit_fails_disk) = None
   \<and> Push_call (Uuid alice_gist)
       \<notin> fst ` set (journal (spec_git 5) alice_gist [rename_entry] commit_fails_disk)
   \<and> fst (Gist_AddAndCommitFiles (spec_git 5) alice_gist [rename_entry] commit_fails_disk) \<noteq> None
   \<and> clones (snd (Gist_AddAndCommitFiles (spec_git 5) alice_gist [rename_entry] commit_fails_disk))
        (Uuid alice_gist) \<noteq> None"
proof -
  have a: "fst (CloneTmp (spec_git 5) (Username (User alice_gist)) (Uuid alice_gist)
             (Uuid alice_gist) commit_fails_disk) = None"
    by (simp add: spec_defs disk_defs Let_def)
  have b: "Push_call (Uuid alice_gist)
             \<notin> fst ` set (journal (spec_git 5) alice_gist [rename_entry] commit_fails_disk)"
    by (simp add: txn_defs spec_defs disk_defs)
  from a b
    clone_left_behind_on_failure [of "spec_git 5" alice_gist
      "\<lambda>w. clones w (Uuid alice_gist) \<noteq> None" commit_fails_disk "[rename_entry]",
      OF spec_git_keeps_clone a b]
  show ?thesis by simp
qed

text \<open>
  The claim as stated has the clone deleted on every exit path. With the package as the
  specification describes its five steps, a transaction that fails at the stage step
  returns with the clone still on disk.
\<close>

theorem clone_left_behind_counterexample:
  "fst (Gist_AddAndCommitFiles (spec_git 5) alice_gist [rename_entry] stage_fails_disk)
     = Some IOFailure
   \<and> \<not> (clones (snd (Gist_AddAndCommitFiles (spec_git 5) alice_gist [rename_entry]
                      stage_fails_disk)) (Uuid alice_gist) = None)"
  by (simp add: txn_defs spec_defs disk_defs)

section \<open>Renaming\<close>













section \<open>Truncated reads\<close>

text \<open>
  C5. With \<open>GetFileContent\<close> as the specification describes it, for a file that
  exists at a revision that exists: a read with truncate requested of a content longer
  than the cap returns the first cap bytes, exactly cap of them, with the truncated flag
  set; a read without truncate returns the whole content with the flag unset.
\<close>

theorem File_truncation:
  assumes "(Username (User gist), Uuid gist) \<notin> set (damaged w)"
    and "repos w (Username (User gist), Uuid gist) = Some h"
    and "resolve revision h = Some t"
    and "map_of t filename = Some content"
  shows "(cap < length content \<longrightarrow>
            Gist_File (spec_git cap) gist revision filename True w
              = (Some \<lparr>Filename = filename, OldFilename = [], Content = take cap content,
                       Truncated = True\<rparr>, None)
            \<and> length (take cap content) = cap)
       \<and> Gist_File (spec_git cap) gist revision filename False w
            = (Some \<lparr>Filename = filename, OldFilename = [], Content = content,
                     Truncated = False\<rparr>, None)"
  using assms
  by (simp add: Gist_File_def spec_git_def spec_GetFileContent_def)

theorem File_truncation_witness:
  "(5::nat) < length ''hello world''
   \<and> Gist_File (spec_git 5) alice_gist ''HEAD'' ''a.txt'' True one_commit_disk
       = (Some \<lparr>Filename = ''a.txt'', OldFilename = [], Content = ''hello'', Truncated = True\<rparr>,
          None)
   \<and> Gist_File (spec_git 5) alice_gist ''HEAD'' ''a.txt'' False one_commit_disk
       = (Some \<lparr>Filename = ''a.txt'', OldFilename = [], Content = ''hello world'',
                Truncated = False\<rparr>, None)"
proof -
  have a: "(Username (User alice_gist), Uuid alice_gist) \<notin> set (damaged one_commit_disk)"
    by (simp add: disk_defs)
  have b: "repos one_commit_disk (Username (User alice_gist), Uuid alice_gist)
             = Some [(''0'', [(''a.txt'', ''hello world'')])]"
    by (simp add: disk_defs)
  have c: "resolve ''HEAD'' [(''0'', [(''a.txt'', ''hello world'')])]
             = Some [(''a.txt'', ''hello world'')]"
    by (simp add: resolve_def)
  have d: "map_of [(''a.txt'', ''hello world'')] ''a.txt'' = Some ''hello world''"
    by simp
  from File_truncation [OF a b c d, of 5] show ?thesis by simp
qed

section \<open>Listing a new repository\<close>

text \<open>
  C7. With \<open>InitRepository\<close> and \<open>GetFilesOfRepository\<close> as the specification
  describes them: when \<open>InitRepository\<close> succeeds, \<open>Files\<close> at revision
  \<open>HEAD\<close> right after it returns the not-found outcome, a nil list and a nil error.
\<close>

theorem init_then_list_is_not_found:
  "fst (Gist_InitRepository (spec_git cap) gist w) = None \<Longrightarrow>
   Gist_Files (spec_git cap) gist ''HEAD'' (snd (Gist_InitRepository (spec_git cap) gist w))
     = ([], None)"
  by (auto simp: Gist_InitRepository_def Gist_Files_def spec_git_def spec_InitRepository_def
        spec_GetFilesOfRepository_def resolve_def bad_revision_def
      split: if_splits option.splits)

theorem init_then_list_is_not_found_witness:
  "fst (Gist_InitRepository (spec_git 5) alice_gist empty_disk) = None
   \<and> Gist_Files (spec_git 5) alice_gist ''HEAD''
        (snd (Gist_InitRepository (spec_git 5) alice_gist empty_disk)) = ([], None)"
proof -
  have a: "fst (Gist_InitRepository (spec_git 5) alice_gist empty_disk) = None"
    by (simp add: Gist_InitRepository_def spec_defs disk_defs)
  from a init_then_list_is_not_found [OF a] show ?thesis by simp
qed

section \<open>Validated filenames\<close>

lemma Contains_single: "Contains s [c] \<longleftrightarrow> c \<in> set s"
  by (induction s) auto

lemma split_path_nonempty: "split_path s \<noteq> []"
  by (induction s) (auto split: list.splits)

lemma split_path_no_separator: "CHR 0x2f \<notin> set s \<Longrightarrow> split_path s = [s]"
  by (induction s) auto

lemma split_path_append:
  "split_path (xs @ CHR 0x2f # ys) = split_path xs @ split_path ys"
  by (induction xs) (auto simp: split_path_nonempty split: list.splits)

lemma tmp_file_path_plain:
  assumes "CHR 0x2f \<notin> set name" and "name \<noteq> []" and "name \<noteq> ''.''" and "name \<noteq> ''..''"
  shows "tmp_file_path tree name = Clean tree @ [name]"
  using assms
  by (simp add: tmp_file_path_def Clean_def split_path_append split_path_no_separator
      clean_step_def)

text \<open>
  C10 (as amended). In every \<open>File\<close> that passes validation, \<open>Filename\<close> and
  \<open>OldFilename\<close> contain neither a slash nor a backslash and have at most 50
  characters, and \<open>Content\<close> is not empty; hence a validated \<open>Filename\<close> other
  than the empty string, \<open>.\<close> and \<open>..\<close> names an entry of the working tree's
  top-level directory.
\<close>

theorem validated_File_names:
  assumes "validate_File f"
  shows "CHR 0x2f \<notin> set (Filename f) \<and> CHR 0x5c \<notin> set (Filename f)
         \<and> RuneCountInString (Filename f) \<le> 50
         \<and> CHR 0x2f \<notin> set (OldFilename f) \<and> CHR 0x5c \<notin> set (OldFilename f)
         \<and> RuneCountInString (OldFilename f) \<le> 50
         \<and> Content f \<noteq> []
         \<and> (Filename f \<noteq> [] \<and> Filename f \<noteq> ''.'' \<and> Filename f \<noteq> ''..'' \<longrightarrow>
              top_level_entry tree (tmp_file_path tree (Filename f)))"
proof -
  from assms have v:
    "CHR 0x2f \<notin> set (Filename f)" "CHR 0x5c \<notin> set (Filename f)"
    "RuneCountInString (Filename f) \<le> 50"
    "CHR 0x2f \<notin> set (OldFilename f)" "CHR 0x5c \<notin> set (OldFilename f)"
    "RuneCountInString (OldFilename f) \<le> 50" "Content f \<noteq> []"
    by (simp_all add: validate_File_def Filename_tag_def OldFilename_tag_def Content_tag_def
        Contains_single)
  have "top_level_entry tree (tmp_file_path tree (Filename f))"
    if "Filename f \<noteq> []" "Filename f \<noteq> ''.''" "Filename f \<noteq> ''..''"
    using tmp_file_path_plain [OF v(1) that] by (simp add: top_level_entry_def)
  with v show ?thesis by blast
qed

theorem validated_File_names_witness:
  "validate_File rename_entry
   \<and> CHR 0x2f \<notin> set (Filename rename_entry)
   \<and> RuneCountInString (Filename rename_entry) \<le> 50
   \<and> top_level_entry ''/tmp/g1'' (tmp_file_path ''/tmp/g1'' (Filename rename_entry))"
proof -
  have a: "validate_File rename_entry"
    by code_simp
  have b: "Filename rename_entry \<noteq> [] \<and> Filename rename_entry \<noteq> ''.''
           \<and> Filename rename_entry \<noteq> ''..''"
    by (simp add: rename_entry_def)
  from a b validated_File_names [OF a, of "''/tmp/g1''"] show ?thesis by blast
qed

text \<open>
  The claim as stated has no validated entry name a path outside the working tree. The
  filename \<open>..\<close> passes validation and names the directory above the tree.
\<close>

theorem dotdot_validated_counterexample:
  "validate_File dotdot_entry
   \<and> tmp_file_path ''/tmp/g1'' (Filename dotdot_entry) = [''tmp'']
   \<and> \<not> top_level_entry ''/tmp/g1'' (tmp_file_path ''/tmp/g1'' (Filename dotdot_entry))"
  by code_simp

end
